theory Spec2Isabelle
  imports Main "HOL-Library.List_Lexorder" "HOL-Library.Product_Lexorder"
begin

section \<open>Data model of the GooGet client\<close>

text \<open>
  Go's multiple return \<open>(value, error)\<close> is a pair whose second component is
  \<open>None\<close> for a nil error. A nil slice and an empty slice are both \<open>[]\<close>. A Go
  pointer is an \<open>option\<close>: \<open>None\<close> is nil, and dereferencing it is the error
  \<open>NilPointerPanic\<close>. \<open>FatalExit\<close> stands for \<open>logger.Fatal\<close>, which ends the
  process.
\<close>

datatype error =
    NilPointerPanic
  | FatalExit
  | NoMatchFound
  | NoVersionsFound
  | InvalidVersion
  | UnsupportedContentType
  | GzipError
  | JsonError
  | FileError
  | TransportError
  | BadStatus
  | StorageError
  | DBError
  | DownloadURLNotSaved
  | RedownloadError
  | ExtractError
  | ScriptFailed

text \<open>\<open>goolib.PackageInfo\<close>: the fields \<open>Name\<close>, \<open>Arch\<close>, \<open>Ver\<close>.\<close>

record PackageInfo =
  piName :: string
  piArch :: string
  piVer :: string

text \<open>
  \<open>goolib.PkgSpec\<close>, with the fields the client code below reads. \<open>VerifyPath\<close>
  is \<open>Verify.Path\<close>.
\<close>

record PkgSpec =
  Name :: string
  Version :: string
  Arch :: string
  VerifyPath :: string

text \<open>\<open>goolib.RepoSpec\<close>; its \<open>PackageSpec\<close> is a pointer.\<close>

record RepoSpec =
  rsChecksum :: string
  rsSource :: string
  rsPackageSpec :: "PkgSpec option"

text \<open>
  \<open>client.PackageState\<close>. \<open>InstalledFiles\<close> is a map from path to checksum, kept
  as an association list; \<open>InstalledApp\<close> is the pair \<open>(Name, Reg)\<close>.
\<close>

record PackageState =
  SourceRepo :: string
  DownloadURL :: string
  Checksum :: string
  LocalPath :: string
  UnpackDir :: string
  PackageSpec :: "PkgSpec option"
  InstalledFiles :: "(string \<times> string) list"
  InstalledApp :: "string \<times> string"
  InstallDate :: int

text \<open>The zero value \<open>PackageState{}\<close>.\<close>

definition emptyPackageState :: PackageState where
  "emptyPackageState =
     \<lparr>SourceRepo = [], DownloadURL = [], Checksum = [], LocalPath = [], UnpackDir = [],
      PackageSpec = None, InstalledFiles = [], InstalledApp = ([], []), InstallDate = 0\<rparr>"

subsection \<open>PackageState.Match\<close>

text \<open>
  \<open>ps.PackageSpec.Name == pi.Name && (ps.PackageSpec.Arch == pi.Arch || pi.Arch == "")
  && (ps.PackageSpec.Version == pi.Ver || pi.Ver == "")\<close>. The first operand
  dereferences \<open>ps.PackageSpec\<close>.
\<close>

definition Match :: "PackageState \<Rightarrow> PackageInfo \<Rightarrow> error + bool" where
  "Match ps pi =
     (case PackageSpec ps of
        None \<Rightarrow> Inl NilPointerPanic
      | Some spec \<Rightarrow>
          Inr (Name spec = piName pi
               \<and> (Arch spec = piArch pi \<or> piArch pi = [])
               \<and> (Version spec = piVer pi \<or> piVer pi = [])))"

subsection \<open>Version comparison\<close>

text \<open>
  Modelled from the spec: \<open>goolib.Compare\<close> and the version parser it uses are not
  under src/. The spec gives versions the form \<open>N(.N)*(-tag)?(@R)?\<close>, compared
  lexicographically over the numeric segments with missing segments read as 0, a version
  with a pre-release tag below the same version without one, and ties broken by the
  numeric revision; a string outside the grammar is \<open>InvalidVersion\<close>, and the
  comparison result returned with the error is 0.

  A parsed version is the key \<open>(segments without trailing zeros, (no tag, revision))\<close>,
  ordered lexicographically; dropping trailing zeros is what reading missing segments as
  0 amounts to.
\<close>

definition is_digit :: "char \<Rightarrow> bool" where
  "is_digit c = (48 \<le> (of_char c :: nat) \<and> (of_char c :: nat) \<le> 57)"

definition parse_nat :: "string \<Rightarrow> nat option" where
  "parse_nat s =
     (if s \<noteq> [] \<and> list_all is_digit s
      then Some (foldl (\<lambda>n c. 10 * n + (of_char c - 48)) 0 s) else None)"

fun split_on :: "char \<Rightarrow> string \<Rightarrow> string list" where
  "split_on d [] = [] # []"
| "split_on d (c # cs) =
     (if c = d then [] # split_on d cs
      else (case split_on d cs of [] \<Rightarrow> [c] # [] | w # ws \<Rightarrow> (c # w) # ws))"

fun parse_segments :: "string list \<Rightarrow> nat list option" where
  "parse_segments [] = Some []"
| "parse_segments (w # ws) =
     (case parse_nat w of
        None \<Rightarrow> None
      | Some n \<Rightarrow> (case parse_segments ws of None \<Rightarrow> None | Some ns \<Rightarrow> Some (n # ns)))"

fun strip_zeros :: "nat list \<Rightarrow> nat list" where
  "strip_zeros [] = []"
| "strip_zeros (n # ns) =
     (case strip_zeros ns of [] \<Rightarrow> (if n = 0 then [] else [n]) | m # ms \<Rightarrow> n # m # ms)"

type_synonym version_key = "nat list \<times> bool \<times> nat"

definition ParseVersion :: "string \<Rightarrow> version_key option" where
  "ParseVersion s =
     (let base = takeWhile (\<lambda>c. c \<noteq> CHR ''@'') s;
          rest = dropWhile (\<lambda>c. c \<noteq> CHR ''@'') s;
          rev = (if rest = [] then Some 0 else parse_nat (tl rest));
          nums = takeWhile (\<lambda>c. c \<noteq> CHR ''-'') base;
          tag = dropWhile (\<lambda>c. c \<noteq> CHR ''-'') base
      in case (parse_segments (split_on CHR ''.'' nums), rev) of
           (Some ns, Some r) \<Rightarrow>
             (if tag \<noteq> [] \<and> tl tag = [] then None
              else Some (strip_zeros ns, tag = [], r))
         | _ \<Rightarrow> None)"

definition Compare :: "string \<Rightarrow> string \<Rightarrow> int \<times> error option" where
  "Compare a b =
     (case (ParseVersion a, ParseVersion b) of
        (Some x, Some y) \<Rightarrow> ((if x < y then - 1 else if y < x then 1 else 0), None)
      | _ \<Rightarrow> (0, Some InvalidVersion))"

text \<open>The comparison result alone, as \<open>latest\<close> uses it (the error is only logged).\<close>

definition CompareResult :: "string \<Rightarrow> string \<Rightarrow> int" where
  "CompareResult a b = fst (Compare a b)"

subsection \<open>Latest-version selection\<close>

text \<open>
  \<open>RepoMap\<close> is \<open>map[string][]goolib.RepoSpec\<close>. Go ranges over a map in an order
  it does not fix, so a RepoMap is given as the list of its entries in the order the
  range statement visits them; every order of the same entries is a possible run.

  \<open>psm\<close> is \<open>map[string][]*goolib.PkgSpec\<close>, built by \<open>psm[r] = append(psm[r], spec)\<close>.
  It too is kept as a list of entries; a new key goes to the end, so \<open>latest\<close> ranges
  over it in the order its keys were first written.
\<close>

type_synonym RepoMap = "(string \<times> RepoSpec list) list"
type_synonym PkgSpecMap = "(string \<times> PkgSpec list) list"

fun psm_append :: "string \<Rightarrow> PkgSpec \<Rightarrow> PkgSpecMap \<Rightarrow> PkgSpecMap" where
  "psm_append r p [] = [(r, [p])]"
| "psm_append r p ((k, ps) # m) =
     (if k = r then (k, ps @ [p]) # m else (k, ps) # psm_append r p m)"

text \<open>
  The inner loop \<open>for _, p := range pl\<close> of \<open>FindRepoLatest\<close>: every element's
  \<open>PackageSpec\<close> pointer is dereferenced for the name test.
\<close>

fun gather_pl :: "string \<Rightarrow> string \<Rightarrow> string \<Rightarrow> RepoSpec list \<Rightarrow> PkgSpecMap \<Rightarrow> error + PkgSpecMap" where
  "gather_pl n a r [] psm = Inr psm"
| "gather_pl n a r (p # pl) psm =
     (case rsPackageSpec p of
        None \<Rightarrow> Inl NilPointerPanic
      | Some spec \<Rightarrow>
          gather_pl n a r pl (if Name spec = n \<and> Arch spec = a then psm_append r spec psm else psm))"

text \<open>The outer loop \<open>for r, pl := range rm\<close>.\<close>

fun gather_rm :: "string \<Rightarrow> string \<Rightarrow> RepoMap \<Rightarrow> PkgSpecMap \<Rightarrow> error + PkgSpecMap" where
  "gather_rm n a [] psm = Inr psm"
| "gather_rm n a ((r, pl) # rm) psm =
     (case gather_pl n a r pl psm of
        Inl e \<Rightarrow> Inl e
      | Inr psm' \<Rightarrow> gather_rm n a rm psm')"

text \<open>
  \<open>latest\<close>: the state of its two loops is the pair \<open>(ver, repo)\<close>, both empty at the
  start. \<open>cmp\<close> is the result \<open>c\<close> of \<open>goolib.Compare(p.Version, ver)\<close>.
\<close>

fun latest_pl :: "(string \<Rightarrow> string \<Rightarrow> int) \<Rightarrow> string \<Rightarrow> PkgSpec list \<Rightarrow> string \<times> string \<Rightarrow> string \<times> string" where
  "latest_pl cmp r [] (ver, repo) = (ver, repo)"
| "latest_pl cmp r (p # pl) (ver, repo) =
     (if ver = [] then latest_pl cmp r pl (Version p, r)
      else if cmp (Version p) ver = 1 then latest_pl cmp r pl (Version p, r)
      else latest_pl cmp r pl (ver, repo))"

fun latest_psm :: "(string \<Rightarrow> string \<Rightarrow> int) \<Rightarrow> PkgSpecMap \<Rightarrow> string \<times> string \<Rightarrow> string \<times> string" where
  "latest_psm cmp [] acc = acc"
| "latest_psm cmp ((r, pl) # psm) acc = latest_psm cmp psm (latest_pl cmp r pl acc)"

definition latest :: "(string \<Rightarrow> string \<Rightarrow> int) \<Rightarrow> PkgSpecMap \<Rightarrow> string \<times> string" where
  "latest cmp psm = latest_psm cmp psm ([], [])"

text \<open>
  The loop \<open>for _, a := range archs\<close> of \<open>FindRepoLatest\<close>; \<open>psm\<close> is the one map
  declared before the loop.
\<close>

fun arch_loop :: "(string \<Rightarrow> string \<Rightarrow> int) \<Rightarrow> string \<Rightarrow> RepoMap \<Rightarrow> string list \<Rightarrow> PkgSpecMap
    \<Rightarrow> error + (string \<times> string \<times> string)" where
  "arch_loop cmp n rm [] psm = Inl NoVersionsFound"
| "arch_loop cmp n rm (a # archs) psm =
     (case gather_rm n a rm psm of
        Inl e \<Rightarrow> Inl e
      | Inr psm' \<Rightarrow>
          if psm' \<noteq> [] then (case latest cmp psm' of (v, r) \<Rightarrow> Inr (v, r, a))
          else arch_loop cmp n rm archs psm')"

text \<open>\<open>FindRepoLatest\<close> returns \<open>(ver, repo, arch)\<close> or an error.\<close>

definition FindRepoLatest :: "(string \<Rightarrow> string \<Rightarrow> int) \<Rightarrow> PackageInfo \<Rightarrow> RepoMap \<Rightarrow> string list
    \<Rightarrow> error + (string \<times> string \<times> string)" where
  "FindRepoLatest cmp pi rm archs =
     (if piArch pi \<noteq> [] then
        (case gather_rm (piName pi) (piArch pi) rm [] of
           Inl e \<Rightarrow> Inl e
         | Inr psm \<Rightarrow>
             if psm \<noteq> [] then (case latest cmp psm of (v, r) \<Rightarrow> Inr (v, r, piArch pi))
             else Inl NoVersionsFound)
      else arch_loop cmp (piName pi) rm archs [])"

text \<open>
  The vocabulary of the statements below. A RepoMap list stands for a Go map when its keys are
  distinct. The specs of a repo's list that have the requested name and arch are its
  matching specs; \<open>grouped\<close> lists the repos that have any, each with its matching
  specs, and \<open>candidates\<close> lists the pairs of a repo and a matching spec, both in
  visiting order.
\<close>

definition is_map :: "RepoMap \<Rightarrow> bool" where
  "is_map rm = distinct (map fst rm)"

definition specs_present :: "RepoMap \<Rightarrow> bool" where
  "specs_present rm = list_all (\<lambda>(r, pl). list_all (\<lambda>p. rsPackageSpec p \<noteq> None) pl) rm"

definition matching :: "string \<Rightarrow> string \<Rightarrow> RepoSpec list \<Rightarrow> PkgSpec list" where
  "matching n a pl =
     filter (\<lambda>spec. Name spec = n \<and> Arch spec = a) (List.map_filter rsPackageSpec pl)"

definition grouped :: "string \<Rightarrow> string \<Rightarrow> RepoMap \<Rightarrow> PkgSpecMap" where
  "grouped n a rm =
     filter (\<lambda>(r, ps). ps \<noteq> []) (map (\<lambda>(r, pl). (r, matching n a pl)) rm)"

definition flatten :: "PkgSpecMap \<Rightarrow> (string \<times> PkgSpec) list" where
  "flatten psm = concat (map (\<lambda>(r, ps). map (\<lambda>spec. (r, spec)) ps) psm)"

definition candidates :: "string \<Rightarrow> string \<Rightarrow> RepoMap \<Rightarrow> (string \<times> PkgSpec) list" where
  "candidates n a rm = flatten (grouped n a rm)"

text \<open>
  One step of the loops of \<open>latest\<close> on a candidate, and the description of what
  \<open>latest\<close> has chosen after visiting the candidates \<open>xs\<close>: no candidate compares
  greater than the chosen version; the chosen version is empty only if every version
  visited is; a non-empty chosen version comes with the repo of the first candidate
  that has this version; and the chosen pair is one of the candidates.
\<close>

definition pick :: "(string \<Rightarrow> string \<Rightarrow> int) \<Rightarrow> string \<times> string \<Rightarrow> string \<times> PkgSpec \<Rightarrow> string \<times> string" where
  "pick cmp acc x =
     (if fst acc = [] then (Version (snd x), fst x)
      else if cmp (Version (snd x)) (fst acc) = 1 then (Version (snd x), fst x)
      else acc)"

definition chosen :: "(string \<Rightarrow> string \<Rightarrow> int) \<Rightarrow> (string \<times> PkgSpec) list \<Rightarrow> string \<times> string \<Rightarrow> bool" where
  "chosen cmp xs acc \<longleftrightarrow>
     (\<forall>x \<in> set xs. cmp (Version (snd x)) (fst acc) \<noteq> 1)
     \<and> (fst acc = [] \<longrightarrow> (\<forall>x \<in> set xs. Version (snd x) = []))
     \<and> (fst acc \<noteq> [] \<longrightarrow>
          (\<exists>spec. find (\<lambda>x. Version (snd x) = fst acc) xs = Some (snd acc, spec)))
     \<and> (xs \<noteq> [] \<longrightarrow> (\<exists>spec. (snd acc, spec) \<in> set xs \<and> Version spec = fst acc))"

text \<open>
  A small RepoMap for checking the statements below on concrete input: three repos that
  list package \<open>foo\<close> for \<open>x86_64\<close> and \<open>noarch\<close>, and an unrelated package.
\<close>

definition mk_spec :: "string \<Rightarrow> string \<Rightarrow> string \<Rightarrow> PkgSpec" where
  "mk_spec n a v = \<lparr>Name = n, Version = v, Arch = a, VerifyPath = []\<rparr>"

definition mk_entry :: "string \<Rightarrow> string \<Rightarrow> string \<Rightarrow> RepoSpec" where
  "mk_entry n a v = \<lparr>rsChecksum = [], rsSource = [], rsPackageSpec = Some (mk_spec n a v)\<rparr>"

definition example_rm :: RepoMap where
  "example_rm =
     [(''https://a.example/repo'', [mk_entry ''foo'' ''x86_64'' ''1.9.9'', mk_entry ''bar'' ''noarch'' ''7'']),
      (''https://b.example/repo'', [mk_entry ''foo'' ''noarch'' ''3.0'', mk_entry ''foo'' ''x86_64'' ''2.1@4'',
                                   mk_entry ''foo'' ''x86_64'' ''2.1'']),
      (''https://c.example/repo'', [mk_entry ''foo'' ''x86_64'' ''2.1@4''])]"

subsection \<open>The state database\<close>

text \<open>
  The table \<open>InstalledPackages\<close>, created with \<open>UNIQUE(PkgName, PkgArch) ON CONFLICT
  REPLACE\<close>: a list of rows in rowid order (the \<open>id\<close> column itself is not kept). The
  type \<open>'j\<close> is that of the \<open>PkgJson\<close> blob.
\<close>

record 'j Row =
  PkgName :: string
  PkgArch :: string
  PkgVer :: string
  PkgJson :: 'j

text \<open>
  What the database code takes from outside src/: \<open>system.AppAssociation\<close> (given the
  spec and local path it is called with), \<open>json.Marshal\<close> and \<open>json.Unmarshal\<close> of a
  PackageState (the latter decodes into the value it is handed and returns the result),
  the order in which the engine yields the rows selected by \<open>FetchPkg\<close> (its
  \<open>ORDER BY PkgName\<close> leaves the order of rows of one name open), and what the engine
  does with the text of \<open>RemovePkg\<close> when a spliced string contains a quote.
\<close>

record 'j DBEnv =
  AppAssociation :: "PkgSpec \<Rightarrow> string \<Rightarrow> string \<times> string"
  marshal :: "PackageState \<Rightarrow> error + 'j"
  unmarshal :: "'j \<Rightarrow> PackageState \<Rightarrow> PackageState"
  queryOrder :: "'j Row list \<Rightarrow> 'j Row list"
  splicedStatement :: "string \<Rightarrow> string \<Rightarrow> 'j Row list \<Rightarrow> error option \<times> 'j Row list"

text \<open>
  What one call of \<open>addPkg\<close> meets: the clock, and the outcomes of \<open>db.Begin\<close>,
  \<open>tx.ExecContext\<close> and \<open>tx.Commit\<close>.
\<close>

record Call =
  now :: int
  beginErr :: "error option"
  execErr :: "error option"
  commitErr :: "error option"

text \<open>
  \<open>stateQuery\<close>, \<open>INSERT or REPLACE INTO InstalledPackages (PkgName, PkgVer, PkgArch,
  PkgJson) VALUES (?, ?, ?, ?)\<close>: the row of the same name and arch, if any, is deleted
  and the new row is inserted.
\<close>

definition stateQuery :: "string \<Rightarrow> string \<Rightarrow> string \<Rightarrow> 'j \<Rightarrow> 'j Row list \<Rightarrow> 'j Row list" where
  "stateQuery name ver arch js t =
     filter (\<lambda>row. \<not> (PkgName row = name \<and> PkgArch row = arch)) t
     @ [\<lparr>PkgName = name, PkgArch = arch, PkgVer = ver, PkgJson = js\<rparr>]"

text \<open>
  \<open>addPkg\<close> returns its error and the table as committed afterwards. It begins a
  transaction of its own, rolls it back when the statement fails and commits it
  otherwise; a transaction that is not committed leaves the table as it was.
\<close>

definition addPkg :: "'j DBEnv \<Rightarrow> Call \<Rightarrow> PackageState \<Rightarrow> 'j Row list \<Rightarrow> error option \<times> 'j Row list" where
  "addPkg E c pkgState t =
     (case PackageSpec pkgState of
        None \<Rightarrow> (Some NilPointerPanic, t)
      | Some spec \<Rightarrow>
          let st = pkgState\<lparr>InstalledApp := AppAssociation E spec (LocalPath pkgState),
                            InstallDate := now c\<rparr>
          in case beginErr c of
               Some e \<Rightarrow> (Some e, t)
             | None \<Rightarrow>
                 (case marshal E st of
                    Inl e \<Rightarrow> (Some e, t)
                  | Inr jsonState \<Rightarrow>
                      (case execErr c of
                         Some e \<Rightarrow> (Some e, t)
                       | None \<Rightarrow>
                           (case commitErr c of
                              Some e \<Rightarrow> (Some e, t)
                            | None \<Rightarrow>
                                (None, stateQuery (Name spec) (Version spec) (Arch spec) jsonState t)))))"

text \<open>
  \<open>WriteStateToDB\<close>: the loop over \<open>*gooState\<close>, returning at the first error. The
  \<open>k\<close>-th call of \<open>addPkg\<close> meets \<open>calls k\<close>.
\<close>

fun WriteStateToDB_loop :: "'j DBEnv \<Rightarrow> (nat \<Rightarrow> Call) \<Rightarrow> nat \<Rightarrow> PackageState list \<Rightarrow> 'j Row list
    \<Rightarrow> error option \<times> 'j Row list" where
  "WriteStateToDB_loop E calls k [] t = (None, t)"
| "WriteStateToDB_loop E calls k (pkgState # rest) t =
     (case addPkg E (calls k) pkgState t of
        (Some e, t') \<Rightarrow> (Some e, t')
      | (None, t') \<Rightarrow> WriteStateToDB_loop E calls (Suc k) rest t')"

definition WriteStateToDB :: "'j DBEnv \<Rightarrow> (nat \<Rightarrow> Call) \<Rightarrow> PackageState list \<Rightarrow> 'j Row list
    \<Rightarrow> error option \<times> 'j Row list" where
  "WriteStateToDB E calls gooState t = WriteStateToDB_loop E calls 0 gooState t"

text \<open>
  \<open>RemovePkg\<close> runs the text \<open>BEGIN; DELETE FROM InstalledPackages where PkgName = '%v'
  and PkgArch = '%v'; COMMIT;\<close> with the two strings spliced in by \<open>fmt.Sprintf\<close>. When
  neither contains a quote character the statement is the one written; \<open>execResult\<close>
  is the outcome of \<open>ExecContext\<close>, and a failed statement deletes nothing.
\<close>

definition RemovePkg :: "'j DBEnv \<Rightarrow> error option \<Rightarrow> 'j Row list \<Rightarrow> string \<Rightarrow> string
    \<Rightarrow> error option \<times> 'j Row list" where
  "RemovePkg E execResult t packageName arch =
     (if CHR 0x27 \<in> set packageName \<or> CHR 0x27 \<in> set arch
      then splicedStatement E packageName arch t
      else case execResult of
             Some e \<Rightarrow> (Some e, t)
           | None \<Rightarrow>
               (None, filter (\<lambda>row. \<not> (PkgName row = packageName \<and> PkgArch row = arch)) t))"

text \<open>
  \<open>FetchPkg\<close>: the loop \<open>for spec.Next()\<close> scans each selected row and unmarshals its
  blob into the one variable \<open>pkgState\<close>, ignoring the errors of both; the function
  returns \<open>pkgState, nil\<close>. When \<open>db.Query\<close> fails, \<open>spec\<close> is nil and
  \<open>spec.Next()\<close> dereferences it.
\<close>

fun fetch_rows :: "'j DBEnv \<Rightarrow> PackageState \<Rightarrow> 'j Row list \<Rightarrow> PackageState" where
  "fetch_rows E pkgState [] = pkgState"
| "fetch_rows E pkgState (row # rows) = fetch_rows E (unmarshal E (PkgJson row) pkgState) rows"

definition selected :: "'j DBEnv \<Rightarrow> 'j Row list \<Rightarrow> string \<Rightarrow> 'j Row list" where
  "selected E t pkgName = queryOrder E (filter (\<lambda>row. PkgName row = pkgName) t)"

definition FetchPkg :: "'j DBEnv \<Rightarrow> error option \<Rightarrow> 'j Row list \<Rightarrow> string \<Rightarrow> PackageState \<times> error option" where
  "FetchPkg E queryErr t pkgName =
     (case queryErr of
        Some e \<Rightarrow> (emptyPackageState, Some NilPointerPanic)
      | None \<Rightarrow> (fetch_rows E emptyPackageState (selected E t pkgName), None))"

text \<open>
  An environment for concrete checks: the blob of a row is the PackageState it encodes,
  unmarshalling a blob in which every field is present overwrites the whole value, rows
  are yielded in rowid order, and no application is associated.
\<close>

definition plainEnv :: "PackageState DBEnv" where
  "plainEnv =
     \<lparr>AppAssociation = (\<lambda>spec path. ([], [])),
      marshal = Inr,
      unmarshal = (\<lambda>js cur. js),
      queryOrder = (\<lambda>rows. rows),
      splicedStatement = (\<lambda>name arch t. (Some DBError, t))\<rparr>"

definition noFault :: Call where
  "noFault = \<lparr>now = 1754021224, beginErr = None, execErr = None, commitErr = None\<rparr>"

text \<open>A run in which the statement of the second \<open>addPkg\<close> call fails.\<close>

definition secondExecFails :: "nat \<Rightarrow> Call" where
  "secondExecFails k = (if k = 1 then noFault\<lparr>execErr := Some DBError\<rparr> else noFault)"

definition mk_state :: "string \<Rightarrow> string \<Rightarrow> string \<Rightarrow> PackageState" where
  "mk_state n a v = emptyPackageState\<lparr>PackageSpec := Some (mk_spec n a v)\<rparr>"

definition mk_row :: "string \<Rightarrow> string \<Rightarrow> string \<Rightarrow> PackageState Row" where
  "mk_row n a v =
     \<lparr>PkgName = n, PkgArch = a, PkgVer = v,
      PkgJson = mk_state n a v\<lparr>InstallDate := 1754021224\<rparr>\<rparr>"

text \<open>A table holds a row for a package state: one of its spec's name and arch.\<close>

definition has_row :: "'j Row list \<Rightarrow> PackageState \<Rightarrow> bool" where
  "has_row t pkgState =
     (case PackageSpec pkgState of
        None \<Rightarrow> False
      | Some spec \<Rightarrow> list_ex (\<lambda>row. PkgName row = Name spec \<and> PkgArch row = Arch spec) t)"

subsection \<open>Fetching and decoding a repo index\<close>

text \<open>
  The bytes of an index are given by what \<open>decode\<close> reads from them: the result of
  \<open>http.DetectContentType\<close> with the part from \<open>"; "\<close> on removed, the outcome of
  \<open>gzip.NewReader\<close>, and the sequence of top-level JSON values that the decoder meets
  in the (decompressed) stream. A top-level value is an array of RepoSpec, \<open>null\<close>, or
  something that does not decode into \<open>[]goolib.RepoSpec\<close>.
\<close>

datatype json_value = JArray "RepoSpec list" | JNull | JInvalid

record Payload =
  contentType :: string
  gzipErr :: "error option"
  topValues :: "json_value list"

text \<open>
  The loop \<open>for dec.More() { dec.Decode(&m) }\<close>. Decoding a JSON array into the slice
  \<open>m\<close> resets the length of \<open>m\<close> to zero and then appends the elements of the array;
  decoding \<open>null\<close> sets \<open>m\<close> to nil.
\<close>

fun decode_values :: "RepoSpec list \<Rightarrow> json_value list \<Rightarrow> error + RepoSpec list" where
  "decode_values m [] = Inr m"
| "decode_values m (JArray xs # vs) = decode_values xs vs"
| "decode_values m (JNull # vs) = decode_values [] vs"
| "decode_values m (JInvalid # vs) = Inl JsonError"

text \<open>
  The outcomes of writing the cache file in \<open>decode\<close>: \<open>oswrap.Create\<close>,
  \<open>json.Marshal\<close>, \<open>f.Write\<close> and \<open>f.Close\<close>.
\<close>

record FileOps =
  createErr :: "error option"
  marshalErr :: "error option"
  writeErr :: "error option"
  closeErr :: "error option"

definition decode :: "Payload \<Rightarrow> FileOps \<Rightarrow> RepoSpec list \<times> error option" where
  "decode index fs =
     (let ct = contentType index in
      if (ct = ''application/gzip'' \<or> ct = ''application/x-gzip'') \<and> gzipErr index \<noteq> None
      then ([], gzipErr index)
      else if \<not> (ct = ''application/gzip'' \<or> ct = ''application/x-gzip''
                   \<or> ct = ''application/json'' \<or> ct = ''text/plain'')
      then ([], Some UnsupportedContentType)
      else case decode_values [] (topValues index) of
             Inl e \<Rightarrow> ([], Some e)
           | Inr m \<Rightarrow>
               (case createErr fs of
                  Some e \<Rightarrow> ([], Some e)
                | None \<Rightarrow>
                    (case marshalErr fs of
                       Some e \<Rightarrow> ([], Some e)
                     | None \<Rightarrow>
                         (case writeErr fs of
                            Some e \<Rightarrow> ([], Some e)
                          | None \<Rightarrow> (m, closeErr fs)))))"

text \<open>
  The surroundings of \<open>unmarshalRepoPackages\<close>: the outcome of \<open>oswrap.Stat\<close> on the
  cache file (with the age \<open>time.Since(fi.ModTime())\<close> when it exists), of opening and
  reading it, \<open>goolib.SplitGCSUrl\<close> (not under src/), \<open>url.Parse\<close> on the proxy
  server, the answer to an HTTP GET of a URL, and the storage client with the outcome of
  reading an object of a bucket.
\<close>

datatype StatResult = StatOk int | StatNotExist | StatFailed error

record Response =
  status :: int
  body :: Payload

datatype ObjectRead = NoReader error | ReadFailed error | Content Payload

record FetchEnv =
  statResult :: StatResult
  cacheOpenErr :: "error option"
  cacheValues :: "json_value list"
  SplitGCSUrl :: "string \<Rightarrow> bool \<times> string \<times> string"
  parseURL :: "string \<Rightarrow> error option"
  httpGet :: "string \<Rightarrow> error + Response"
  newClientErr :: "error option"
  readObject :: "string \<Rightarrow> string \<Rightarrow> ObjectRead"
  files :: FileOps

text \<open>
  The functions that fetch return, next to their Go result, the list of the URLs they
  requested with \<open>httpClient.Get\<close>, in order.
\<close>

definition unmarshalRepoPackagesHTTP :: "FetchEnv \<Rightarrow> string \<Rightarrow> string
    \<Rightarrow> (RepoSpec list \<times> error option) \<times> string list" where
  "unmarshalRepoPackagesHTTP N repoURL proxyServer =
     (if proxyServer \<noteq> [] \<and> parseURL N proxyServer \<noteq> None then (([], Some FatalExit), [])
      else
        let indexURL = repoURL @ ''/index.gz'' in
        case httpGet N indexURL of
          Inl e \<Rightarrow> (([], Some e), [indexURL])
        | Inr res \<Rightarrow>
            if status res \<noteq> 200 then
              (let indexURL' = repoURL @ ''/index'' in
               case httpGet N indexURL' of
                 Inl e \<Rightarrow> (([], Some e), [indexURL, indexURL'])
               | Inr res' \<Rightarrow>
                   if status res' \<noteq> 200 then (([], Some BadStatus), [indexURL, indexURL'])
                   else (decode (body res') (files N), [indexURL, indexURL']))
            else (decode (body res) (files N), [indexURL]))"

definition unmarshalRepoPackagesGCS :: "FetchEnv \<Rightarrow> string \<Rightarrow> string \<Rightarrow> string
    \<Rightarrow> RepoSpec list \<times> error option" where
  "unmarshalRepoPackagesGCS N bucket object proxyServer =
     (if proxyServer \<noteq> [] then ([], None)
      else case newClientErr N of
             Some e \<Rightarrow> ([], Some e)
           | None \<Rightarrow>
               let object' = (if object \<noteq> [] then object @ ''/'' else object);
                   indexPath = object' @ ''index'';
                   indexPath_gz = indexPath @ ''.gz''
               in case readObject N bucket indexPath_gz of
                    Content index \<Rightarrow> decode index (files N)
                  | _ \<Rightarrow>
                      (case readObject N bucket indexPath of
                         NoReader e \<Rightarrow> ([], Some StorageError)
                       | ReadFailed e \<Rightarrow> ([], Some StorageError)
                       | Content index \<Rightarrow> decode index (files N)))"

definition fetchRepoPackages :: "FetchEnv \<Rightarrow> string \<Rightarrow> string
    \<Rightarrow> (RepoSpec list \<times> error option) \<times> string list" where
  "fetchRepoPackages N p proxyServer =
     (case SplitGCSUrl N p of
        (isGCSURL, bucket, object) \<Rightarrow>
          if isGCSURL then (unmarshalRepoPackagesGCS N bucket object proxyServer, [])
          else unmarshalRepoPackagesHTTP N p proxyServer)"

definition unmarshalRepoPackages :: "FetchEnv \<Rightarrow> string \<Rightarrow> int \<Rightarrow> string
    \<Rightarrow> (RepoSpec list \<times> error option) \<times> string list" where
  "unmarshalRepoPackages N p cacheLife proxyServer =
     (case statResult N of
        StatOk age \<Rightarrow>
          if age < cacheLife then
            (case cacheOpenErr N of
               Some e \<Rightarrow> (([], Some e), [])
             | None \<Rightarrow>
                 (case decode_values [] (cacheValues N) of
                    Inl e \<Rightarrow> (([], Some e), [])
                  | Inr m \<Rightarrow> ((m, None), [])))
          else fetchRepoPackages N p proxyServer
      | StatNotExist \<Rightarrow> fetchRepoPackages N p proxyServer
      | StatFailed e \<Rightarrow> (([], Some e), []))"

text \<open>The cache file is stale or absent; a GET completes with a status other than 200.\<close>

definition stale_or_absent :: "FetchEnv \<Rightarrow> int \<Rightarrow> bool" where
  "stale_or_absent N cacheLife =
     (case statResult N of StatOk age \<Rightarrow> \<not> age < cacheLife | StatNotExist \<Rightarrow> True
      | StatFailed e \<Rightarrow> False)"

definition non200 :: "error + Response \<Rightarrow> bool" where
  "non200 r = (case r of Inl e \<Rightarrow> False | Inr res \<Rightarrow> status res \<noteq> 200)"

text \<open>
  Surroundings for concrete checks: no cache file, URLs starting with \<open>gs://\<close> taken as
  storage URLs, every proxy string a valid URL, a server with no \<open>index.gz\<close> that
  answers 200 for \<open>index\<close> at one repo and 404 for both at every other.
\<close>

definition okFiles :: FileOps where
  "okFiles = \<lparr>createErr = None, marshalErr = None, writeErr = None, closeErr = None\<rparr>"

definition twoArrays :: Payload where
  "twoArrays =
     \<lparr>contentType = ''text/plain'', gzipErr = None,
      topValues = [JArray [mk_entry ''foo'' ''noarch'' ''1.0''],
                   JArray [mk_entry ''bar'' ''noarch'' ''2.0'', mk_entry ''baz'' ''noarch'' ''3.0'']]\<rparr>"

definition exampleServer :: "string \<Rightarrow> error + Response" where
  "exampleServer url =
     (if url = ''https://a.example/repo/index'' then Inr \<lparr>status = 200, body = twoArrays\<rparr>
      else Inr \<lparr>status = 404, body = \<lparr>contentType = ''text/plain'', gzipErr = None, topValues = []\<rparr>\<rparr>)"

definition exampleNet :: FetchEnv where
  "exampleNet =
     \<lparr>statResult = StatNotExist, cacheOpenErr = None, cacheValues = [],
      SplitGCSUrl = (\<lambda>u. (take 5 u = ''gs://'', takeWhile (\<lambda>c. c \<noteq> CHR ''/'') (drop 5 u),
                           drop 1 (dropWhile (\<lambda>c. c \<noteq> CHR ''/'') (drop 5 u)))),
      parseURL = (\<lambda>u. None),
      httpGet = exampleServer,
      newClientErr = None,
      readObject = (\<lambda>bucket path. NoReader StorageError),
      files = okFiles\<rparr>"

subsection \<open>Running a verify command\<close>

text \<open>
  The surroundings of \<open>RunVerifyCommand\<close>: the outcome of \<open>os.Open\<close> on the local
  package, \<open>goolib.Checksum\<close> of that file, \<open>url.Parse\<close> on the proxy server,
  whether the GET of the download URL fails, the outcome of \<open>extractVerify\<close> on the
  stream it is given, of the \<open>k\<close>-th call of \<open>system.Verify\<close>, of
  \<open>download.Package\<close> and of \<open>download.ExtractPkg\<close>.
\<close>

datatype OpenResult = Opened | NotExist | OpenFailed error

record VerifyEnv =
  openResult :: OpenResult
  localChecksum :: string
  proxyParse :: "string \<Rightarrow> error option"
  getErr :: "string \<Rightarrow> error option"
  extractVerifyErr :: "error option"
  verifyErr :: "nat \<Rightarrow> error option"
  downloadPackageErr :: "error option"
  extractPkgErr :: "error option"

text \<open>
  \<open>RunVerifyCommand\<close> returns, next to \<open>(ok, error)\<close>, the calls it made to
  \<open>extractVerify\<close>, \<open>system.Verify\<close>, \<open>download.Package\<close> and
  \<open>download.ExtractPkg\<close>, in order, each with its outcome.
\<close>

datatype event =
    EvExtractVerify "error option"
  | EvVerify "error option"
  | EvDownloadPackage "error option"
  | EvExtractPkg "error option"

text \<open>
  The statements under \<open>if rd\<close> that open the download: they fail when no download URL
  was saved, when the proxy server does not parse, and when the GET fails.
\<close>

definition openDownload :: "VerifyEnv \<Rightarrow> PackageState \<Rightarrow> string \<Rightarrow> error option" where
  "openDownload V ps proxyServer =
     (if DownloadURL ps = [] then Some DownloadURLNotSaved
      else if proxyServer \<noteq> [] \<and> proxyParse V proxyServer \<noteq> None then proxyParse V proxyServer
      else getErr V (DownloadURL ps))"

text \<open>
  The end of \<open>RunVerifyCommand\<close>, reached when the first run of the verify command
  failed: the package is downloaded again if \<open>rd\<close> is set, extracted in full, and the
  command is run once more; "any error is deemed a verification failure".
\<close>

definition reverify :: "VerifyEnv \<Rightarrow> bool \<Rightarrow> (bool \<times> error option) \<times> event list" where
  "reverify V rd =
     (if rd \<and> downloadPackageErr V \<noteq> None
      then ((False, Some RedownloadError), [EvDownloadPackage (downloadPackageErr V)])
      else
        let evs = (if rd then [EvDownloadPackage None] else []) in
        case extractPkgErr V of
          Some e \<Rightarrow> ((False, Some e), evs @ [EvExtractPkg (Some e)])
        | None \<Rightarrow>
            (case verifyErr V 1 of
               Some e \<Rightarrow> ((False, None), evs @ [EvExtractPkg None, EvVerify (Some e)])
             | None \<Rightarrow> ((True, None), evs @ [EvExtractPkg None, EvVerify None])))"

definition RunVerifyCommand :: "VerifyEnv \<Rightarrow> PackageState \<Rightarrow> string
    \<Rightarrow> (bool \<times> error option) \<times> event list" where
  "RunVerifyCommand V ps proxyServer =
     (case PackageSpec ps of
        None \<Rightarrow> ((False, Some NilPointerPanic), [])
      | Some spec \<Rightarrow>
          if VerifyPath spec = [] then ((True, None), [])
          else
            (case openResult V of
               OpenFailed e \<Rightarrow> ((False, Some e), [])
             | opened \<Rightarrow>
                 let rd = (opened = NotExist
                           \<or> (Checksum ps \<noteq> [] \<and> localChecksum V \<noteq> Checksum ps))
                 in
                 case (if rd then openDownload V ps proxyServer else None) of
                   Some e \<Rightarrow> ((False, Some e), [])
                 | None \<Rightarrow>
                     (case extractVerifyErr V of
                        Some e \<Rightarrow> ((False, Some e), [EvExtractVerify (Some e)])
                      | None \<Rightarrow>
                          (case verifyErr V 0 of
                             None \<Rightarrow> ((True, None), [EvExtractVerify None, EvVerify None])
                           | Some e \<Rightarrow>
                               (case reverify V rd of
                                  (res, evs) \<Rightarrow>
                                    (res, [EvExtractVerify None, EvVerify (Some e)] @ evs))))))"

text \<open>
  Surroundings for a concrete check: the local package opens, and the verify script
  fails each time it is run.
\<close>

definition failingVerify :: VerifyEnv where
  "failingVerify =
     \<lparr>openResult = Opened, localChecksum = [], proxyParse = (\<lambda>u. None), getErr = (\<lambda>u. None),
      extractVerifyErr = None, verifyErr = (\<lambda>k. Some ScriptFailed),
      downloadPackageErr = None, extractPkgErr = None\<rparr>"

definition verifiedState :: PackageState where
  "verifiedState =
     emptyPackageState\<lparr>LocalPath := ''cache/foo.noarch.1.0.goo'',
       PackageSpec := Some \<lparr>Name = ''foo'', Version = ''1.0'', Arch = ''noarch'',
                             VerifyPath = ''verify.ps1''\<rparr>\<rparr>"

section \<open>Properties\<close>

subsection \<open>Gathering candidates and choosing the latest\<close>

lemma psm_append_new: "r \<notin> fst ` set m \<Longrightarrow> psm_append r p m = m @ [(r, [p])]"
  by (induction m) auto

lemma psm_append_last:
  "r \<notin> fst ` set m \<Longrightarrow> psm_append r p (m @ [(r, ps)]) = m @ [(r, ps @ [p])]"
  by (induction m) auto

lemma matching_Cons:
  "rsPackageSpec p = Some spec \<Longrightarrow>
   matching n a (p # pl) = (if Name spec = n \<and> Arch spec = a then spec # matching n a pl else matching n a pl)"
  by (simp add: matching_def List.map_filter_simps)

lemma gather_pl_last:
  "list_all (\<lambda>p. rsPackageSpec p \<noteq> None) pl \<Longrightarrow> r \<notin> fst ` set m \<Longrightarrow>
   gather_pl n a r pl (m @ [(r, ps)]) = Inr (m @ [(r, ps @ matching n a pl)])"
proof (induction pl arbitrary: ps)
  case Nil
  then show ?case by (simp add: matching_def List.map_filter_simps)
next
  case (Cons p pl)
  then obtain spec where sp: "rsPackageSpec p = Some spec" by auto
  from Cons show ?case
    by (simp add: sp matching_Cons psm_append_last)
qed

lemma gather_pl_new:
  "list_all (\<lambda>p. rsPackageSpec p \<noteq> None) pl \<Longrightarrow> r \<notin> fst ` set m \<Longrightarrow>
   gather_pl n a r pl m = Inr (m @ (if matching n a pl = [] then [] else [(r, matching n a pl)]))"
proof (induction pl)
  case Nil
  then show ?case by (simp add: matching_def List.map_filter_simps)
next
  case (Cons p pl)
  then obtain spec where sp: "rsPackageSpec p = Some spec" by auto
  from Cons have wf: "list_all (\<lambda>p. rsPackageSpec p \<noteq> None) pl" by simp
  show ?case
  proof (cases "Name spec = n \<and> Arch spec = a")
    case True
    then show ?thesis
      using Cons.prems(2) gather_pl_last [OF wf Cons.prems(2), of n a "[spec]"]
      by (simp add: sp matching_Cons psm_append_new)
  next
    case False
    then show ?thesis using Cons by (auto simp: sp matching_Cons)
  qed
qed

lemma grouped_Cons:
  "grouped n a ((r, pl) # rm) =
     (if matching n a pl = [] then [] else [(r, matching n a pl)]) @ grouped n a rm"
  by (simp add: grouped_def)

lemma grouped_keys: "fst ` set (grouped n a rm) \<subseteq> fst ` set rm"
  by (force simp: grouped_def)

lemma gather_rm_grouped:
  "specs_present rm \<Longrightarrow> distinct (map fst rm) \<Longrightarrow> fst ` set rm \<inter> fst ` set m = {} \<Longrightarrow>
   gather_rm n a rm m = Inr (m @ grouped n a rm)"
proof (induction rm arbitrary: m)
  case Nil
  then show ?case by (simp add: grouped_def)
next
  case (Cons x rm)
  obtain r pl where x: "x = (r, pl)" by (cases x)
  from Cons.prems x have wfpl: "list_all (\<lambda>p. rsPackageSpec p \<noteq> None) pl"
    and wfrm: "specs_present rm" and d: "distinct (map fst rm)" and rn: "r \<notin> fst ` set rm"
    and rm': "r \<notin> fst ` set m" and dis: "fst ` set rm \<inter> fst ` set m = {}"
    by (auto simp: specs_present_def)
  let ?m' = "m @ (if matching n a pl = [] then [] else [(r, matching n a pl)])"
  have g: "gather_pl n a r pl m = Inr ?m'" by (rule gather_pl_new [OF wfpl rm'])
  have dis': "fst ` set rm \<inter> fst ` set ?m' = {}" using dis rn by auto
  show ?case
    unfolding x using Cons.IH [OF wfrm d dis'] g
    by (simp add: grouped_Cons)
qed

lemma gather_rm_empty:
  "specs_present rm \<Longrightarrow> is_map rm \<Longrightarrow> gather_rm n a rm [] = Inr (grouped n a rm)"
  using gather_rm_grouped [of rm "[]" n a] by (simp add: is_map_def)

lemma grouped_nonempty: "(x \<in> set (grouped n a rm)) \<Longrightarrow> snd x \<noteq> []"
  by (auto simp: grouped_def)

lemma candidates_empty_iff: "candidates n a rm = [] \<longleftrightarrow> grouped n a rm = []"
proof
  assume "candidates n a rm = []"
  show "grouped n a rm = []"
  proof (rule ccontr)
    assume "grouped n a rm \<noteq> []"
    then obtain x xs where g: "grouped n a rm = x # xs" by (cases "grouped n a rm") auto
    then have "snd x \<noteq> []" using grouped_nonempty [of x n a rm] by simp
    with g \<open>candidates n a rm = []\<close> show False
      by (cases x) (auto simp: candidates_def flatten_def)
  qed
next
  assume "grouped n a rm = []" then show "candidates n a rm = []"
    by (simp add: candidates_def flatten_def)
qed

lemma arch_loop_find:
  "specs_present rm \<Longrightarrow> is_map rm \<Longrightarrow>
   arch_loop cmp n rm archs [] =
     (case find (\<lambda>a. candidates n a rm \<noteq> []) archs of
        None \<Rightarrow> Inl NoVersionsFound
      | Some a \<Rightarrow> (case latest cmp (grouped n a rm) of (v, r) \<Rightarrow> Inr (v, r, a)))"
  by (induction archs) (simp_all add: gather_rm_empty candidates_empty_iff)


lemma latest_pl_foldl:
  "latest_pl cmp r pl acc = foldl (pick cmp) acc (map (\<lambda>spec. (r, spec)) pl)"
  by (induction pl arbitrary: acc) (auto simp: pick_def)

lemma latest_psm_foldl: "latest_psm cmp psm acc = foldl (pick cmp) acc (flatten psm)"
proof (induction psm arbitrary: acc)
  case Nil
  then show ?case by (simp add: flatten_def)
next
  case (Cons x psm)
  obtain r pl where x: "x = (r, pl)" by (cases x)
  have "flatten (x # psm) = map (\<lambda>spec. (r, spec)) pl @ flatten psm"
    by (simp add: flatten_def x)
  then show ?case by (simp add: x Cons.IH latest_pl_foldl)
qed

lemma latest_foldl: "latest cmp psm = foldl (pick cmp) ([], []) (flatten psm)"
  by (simp add: latest_def latest_psm_foldl)

lemma find_snoc:
  "find P (xs @ [x]) = (if find P xs = None then (if P x then Some x else None) else find P xs)"
  by (induction xs) auto

lemma chosen_foldl:
  assumes tr: "\<And>a b c. cmp a b = 1 \<Longrightarrow> cmp b c = 1 \<Longrightarrow> cmp a c = 1"
    and irr: "\<And>a. cmp a a \<noteq> 1"
    and emp: "\<And>a. cmp [] a \<noteq> 1"
  shows "chosen cmp xs (foldl (pick cmp) ([], []) xs)"
proof (induction xs rule: rev_induct)
  case Nil
  then show ?case by (simp add: chosen_def emp)
next
  case (snoc x xs)
  obtain v r where acc: "foldl (pick cmp) ([], []) xs = (v, r)" by (cases "foldl (pick cmp) ([], []) xs")
  obtain rx sx where x: "x = (rx, sx)" by (cases x)
  from snoc acc have ch: "chosen cmp xs (v, r)" by simp
  show ?case
  proof (cases "v = [] \<or> cmp (Version sx) v = 1")
    case True
    then have new: "foldl (pick cmp) ([], []) (xs @ [x]) = (Version sx, rx)"
      by (auto simp: acc x pick_def)
    have below: "\<forall>y \<in> set xs. cmp (Version (snd y)) (Version sx) \<noteq> 1"
    proof
      fix y assume y: "y \<in> set xs"
      show "cmp (Version (snd y)) (Version sx) \<noteq> 1"
      proof (cases "v = []")
        case True
        with ch y have "Version (snd y) = []" by (simp add: chosen_def)
        then show ?thesis by (simp add: emp)
      next
        case False
        with True have gt: "cmp (Version sx) v = 1" by simp
        from ch y have "cmp (Version (snd y)) v \<noteq> 1" by (simp add: chosen_def)
        with gt tr show ?thesis by blast
      qed
    qed
    have nofind: "Version sx \<noteq> [] \<Longrightarrow> find (\<lambda>y. Version (snd y) = Version sx) xs = None"
    proof -
      assume ne: "Version sx \<noteq> []"
      have "\<forall>y \<in> set xs. Version (snd y) \<noteq> Version sx"
      proof
        fix y assume y: "y \<in> set xs"
        show "Version (snd y) \<noteq> Version sx"
        proof (cases "v = []")
          case True
          with ch y have "Version (snd y) = []" by (simp add: chosen_def)
          with ne show ?thesis by simp
        next
          case False
          with True have gt: "cmp (Version sx) v = 1" by simp
          from ch y have "cmp (Version (snd y)) v \<noteq> 1" by (simp add: chosen_def)
          with gt show ?thesis by auto
        qed
      qed
      then show ?thesis by (auto simp: find_None_iff)
    qed
    have allempty: "Version sx = [] \<Longrightarrow> \<forall>y \<in> set xs. Version (snd y) = []"
    proof -
      assume e: "Version sx = []"
      with True emp have "v = []" by auto
      with ch show ?thesis by (simp add: chosen_def)
    qed
    show ?thesis
      unfolding new chosen_def using below nofind allempty
      by (auto simp: x irr find_snoc)
  next
    case False
    then have same: "foldl (pick cmp) ([], []) (xs @ [x]) = (v, r)"
      by (auto simp: acc x pick_def)
    from False have vne: "v \<noteq> []" and ngt: "cmp (Version sx) v \<noteq> 1" by auto
    from ch vne have xsne: "xs \<noteq> []" by (auto simp: chosen_def)
    show ?thesis
      unfolding same using ch vne ngt xsne
      by (auto simp: chosen_def x find_snoc)
  qed
qed

lemma CompareResult_gt:
  "CompareResult a b = 1 \<longleftrightarrow>
     (\<exists>x y. ParseVersion a = Some x \<and> ParseVersion b = Some y \<and> y < x)"
  by (auto simp: CompareResult_def Compare_def split: option.splits)

lemma CompareResult_trans:
  "CompareResult a b = 1 \<Longrightarrow> CompareResult b c = 1 \<Longrightarrow> CompareResult a c = 1"
  unfolding CompareResult_gt by force

lemma CompareResult_irrefl: "CompareResult a a \<noteq> 1"
  unfolding CompareResult_gt by simp

lemma CompareResult_empty: "CompareResult [] a \<noteq> 1"
  by (simp add: CompareResult_gt ParseVersion_def parse_nat_def)

lemma FindRepoLatest_cases:
  assumes "is_map rm" and "specs_present rm"
    and "FindRepoLatest cmp pi rm archs = Inr (v, r, a)"
  shows "candidates (piName pi) a rm \<noteq> [] \<and> latest cmp (grouped (piName pi) a rm) = (v, r)
         \<and> (if piArch pi = [] then find (\<lambda>a. candidates (piName pi) a rm \<noteq> []) archs = Some a
            else a = piArch pi)"
proof (cases "piArch pi = []")
  case True
  with assms(3) have "arch_loop cmp (piName pi) rm archs [] = Inr (v, r, a)"
    by (simp add: FindRepoLatest_def)
  then have f: "find (\<lambda>a. candidates (piName pi) a rm \<noteq> []) archs = Some a"
    and l: "latest cmp (grouped (piName pi) a rm) = (v, r)"
    by (auto simp: arch_loop_find [OF assms(2) assms(1)] split: option.splits prod.splits)
  from f have "candidates (piName pi) a rm \<noteq> []"
    by (auto simp: find_Some_iff)
  with f l True show ?thesis by simp
next
  case False
  with assms show ?thesis
    by (auto simp: FindRepoLatest_def gather_rm_empty candidates_empty_iff
             split: if_splits prod.splits)
qed

lemma example_rm_ok: "is_map example_rm \<and> specs_present example_rm"
  by code_simp

text \<open>
  C1 (as amended). The RepoMap of this client maps a repo URL to its list of RepoSpecs
  and holds no priority. Let the comparison result of \<open>goolib.Compare\<close> be a strict
  order (transitive, irreflexive) in which the empty string is never the greater one, and
  let the RepoMap hold no nil PackageSpec. When \<open>FindRepoLatest\<close> returns
  \<open>(v, r, a)\<close>, then \<open>r\<close> lists a spec of the requested name, of arch \<open>a\<close> and of
  version \<open>v\<close>; no candidate of that name and arch, in any repo, compares greater than
  \<open>v\<close>; and, for a non-empty \<open>v\<close>, \<open>r\<close> is the repo of the first candidate with
  version \<open>v\<close> in the order in which the map iteration visits the candidates. So the
  highest version over all repos wins, and among repos that list it the one visited
  first, which Go does not fix.
\<close>

theorem FindRepoLatest_highest_version:
  assumes tr: "\<And>x y z. cmp x y = 1 \<Longrightarrow> cmp y z = 1 \<Longrightarrow> cmp x z = 1"
    and irr: "\<And>x. cmp x x \<noteq> 1"
    and emp: "\<And>x. cmp [] x \<noteq> 1"
    and "is_map rm" and "specs_present rm"
    and res: "FindRepoLatest cmp pi rm archs = Inr (v, r, a)"
  shows "(\<exists>spec. (r, spec) \<in> set (candidates (piName pi) a rm) \<and> Version spec = v)
         \<and> (\<forall>x \<in> set (candidates (piName pi) a rm). cmp (Version (snd x)) v \<noteq> 1)
         \<and> (v \<noteq> [] \<longrightarrow>
              (\<exists>spec. find (\<lambda>x. Version (snd x) = v) (candidates (piName pi) a rm) = Some (r, spec)))"
proof -
  from FindRepoLatest_cases [OF assms(4) assms(5) res]
  have ne: "candidates (piName pi) a rm \<noteq> []"
    and l: "latest cmp (grouped (piName pi) a rm) = (v, r)" by auto
  have "chosen cmp (candidates (piName pi) a rm) (v, r)"
    using chosen_foldl [of cmp "candidates (piName pi) a rm", OF tr irr emp] l
    by (simp add: latest_foldl candidates_def)
  with ne show ?thesis by (simp add: chosen_def)
qed

theorem FindRepoLatest_highest_version_witness:
  "is_map example_rm \<and> specs_present example_rm
   \<and> FindRepoLatest CompareResult \<lparr>piName = ''foo'', piArch = ''x86_64'', piVer = []\<rparr> example_rm []
       = Inr (''2.1@4'', ''https://b.example/repo'', ''x86_64'')
   \<and> list_all (\<lambda>x. CompareResult (Version (snd x)) ''2.1@4'' \<noteq> 1) (candidates ''foo'' ''x86_64'' example_rm)
   \<and> map_option fst (find (\<lambda>x. Version (snd x) = ''2.1@4'') (candidates ''foo'' ''x86_64'' example_rm))
       = Some ''https://b.example/repo''"
proof -
  have r: "FindRepoLatest CompareResult \<lparr>piName = ''foo'', piArch = ''x86_64'', piVer = []\<rparr> example_rm []
       = Inr (''2.1@4'', ''https://b.example/repo'', ''x86_64'')"
    by code_simp
  have ok: "is_map example_rm" "specs_present example_rm"
    using example_rm_ok by simp_all
  from FindRepoLatest_highest_version [of CompareResult example_rm
         "\<lparr>piName = ''foo'', piArch = ''x86_64'', piVer = []\<rparr>" "[]"
         "''2.1@4''" "''https://b.example/repo''" "''x86_64''",
         OF CompareResult_trans CompareResult_irrefl CompareResult_empty ok r]
  show ?thesis using r ok by (auto simp: list_all_iff)
qed

text \<open>
  The claim C1 as stated fails: one RepoMap with two repos that list the same version,
  visited in its two possible orders, gives two different repos, so the tie is not
  decided by the repo URL (and the RepoMap has no priority to decide it by).
\<close>

theorem FindRepoLatest_tie_counterexample:
  "FindRepoLatest CompareResult \<lparr>piName = ''foo'', piArch = ''noarch'', piVer = []\<rparr>
     [(''https://a.example/repo'', [mk_entry ''foo'' ''noarch'' ''1.0'']),
      (''https://b.example/repo'', [mk_entry ''foo'' ''noarch'' ''1.0''])] []
     = Inr (''1.0'', ''https://a.example/repo'', ''noarch'')
   \<and> FindRepoLatest CompareResult \<lparr>piName = ''foo'', piArch = ''noarch'', piVer = []\<rparr>
     [(''https://b.example/repo'', [mk_entry ''foo'' ''noarch'' ''1.0'']),
      (''https://a.example/repo'', [mk_entry ''foo'' ''noarch'' ''1.0''])] []
     = Inr (''1.0'', ''https://b.example/repo'', ''noarch'')"
  by code_simp

text \<open>
  C7. For a request with an empty arch, over a RepoMap that holds no nil PackageSpec,
  \<open>FindRepoLatest\<close> takes the first arch of \<open>archs\<close>, in list order, for which any
  repo has a candidate of the requested name; the version and repo it returns are
  chosen by \<open>latest\<close> from the candidates of that arch alone; and if no arch of the
  list has a candidate it returns the error.
\<close>

theorem FindRepoLatest_first_arch:
  assumes "piArch pi = []" and "is_map rm" and "specs_present rm"
  shows "FindRepoLatest cmp pi rm archs =
     (case find (\<lambda>a. candidates (piName pi) a rm \<noteq> []) archs of
        None \<Rightarrow> Inl NoVersionsFound
      | Some a \<Rightarrow> (case latest cmp (grouped (piName pi) a rm) of (v, r) \<Rightarrow> Inr (v, r, a)))"
  using assms by (simp add: FindRepoLatest_def arch_loop_find)

theorem FindRepoLatest_first_arch_witness:
  "FindRepoLatest CompareResult \<lparr>piName = ''foo'', piArch = [], piVer = []\<rparr> example_rm
     [''arm64'', ''x86_64'', ''noarch'']
     = Inr (''2.1@4'', ''https://b.example/repo'', ''x86_64'')
   \<and> FindRepoLatest CompareResult \<lparr>piName = ''foo'', piArch = [], piVer = []\<rparr> example_rm
     [''arm64'', ''ppc'']
     = Inl NoVersionsFound"
proof -
  have ok: "is_map example_rm" "specs_present example_rm"
    using example_rm_ok by simp_all
  have a: "piArch \<lparr>piName = ''foo'', piArch = [], piVer = []\<rparr> = []" by simp
  let ?pi = "\<lparr>piName = ''foo'', piArch = [], piVer = []\<rparr>"
  have 1: "(case find (\<lambda>a. candidates (piName ?pi) a example_rm \<noteq> []) [''arm64'', ''x86_64'', ''noarch''] of
        None \<Rightarrow> Inl NoVersionsFound
      | Some a \<Rightarrow> (case latest CompareResult (grouped (piName ?pi) a example_rm) of (v, r) \<Rightarrow> Inr (v, r, a)))
      = Inr (''2.1@4'', ''https://b.example/repo'', ''x86_64'')"
    by code_simp
  have 2: "(case find (\<lambda>a. candidates (piName ?pi) a example_rm \<noteq> []) [''arm64'', ''ppc''] of
        None \<Rightarrow> Inl NoVersionsFound
      | Some a \<Rightarrow> (case latest CompareResult (grouped (piName ?pi) a example_rm) of (v, r) \<Rightarrow> Inr (v, r, a)))
      = Inl NoVersionsFound"
    by code_simp
  show ?thesis
    by (rule conjI [OF trans [OF FindRepoLatest_first_arch [OF a ok] 1]
                       trans [OF FindRepoLatest_first_arch [OF a ok] 2]])
qed

subsection \<open>The state database\<close>

lemma addPkg_error_unchanged: "addPkg E c pkgState t = (Some e, t') \<Longrightarrow> t' = t"
  by (auto simp: addPkg_def Let_def split: option.splits sum.splits)

lemma addPkg_ok_row: "addPkg E c pkgState t = (None, t') \<Longrightarrow> has_row t' pkgState"
  by (auto simp: addPkg_def Let_def has_row_def stateQuery_def split: option.splits sum.splits)

lemma stateQuery_keeps_row:
  "has_row t pkgState \<Longrightarrow> has_row (stateQuery name ver arch js t) pkgState"
  by (cases "PackageSpec pkgState") (auto simp: has_row_def stateQuery_def list_ex_iff)

lemma addPkg_keeps_row:
  "addPkg E c p t = (None, t') \<Longrightarrow> has_row t pkgState \<Longrightarrow> has_row t' pkgState"
  by (auto simp: addPkg_def Let_def stateQuery_keeps_row split: option.splits sum.splits)

lemma WriteStateToDB_loop_keeps_row:
  "WriteStateToDB_loop E calls k xs t = (None, t1) \<Longrightarrow> has_row t pkgState \<Longrightarrow> has_row t1 pkgState"
proof (induction xs arbitrary: k t)
  case Nil
  then show ?case by simp
next
  case (Cons x xs)
  obtain err t' where a: "addPkg E (calls k) x t = (err, t')" by (cases "addPkg E (calls k) x t")
  with Cons.prems(1) have e: "err = None"
    and l: "WriteStateToDB_loop E calls (Suc k) xs t' = (None, t1)"
    by (auto split: option.splits)
  from a e Cons.prems(2) have "has_row t' pkgState" by (auto dest: addPkg_keeps_row)
  with Cons.IH l show ?case by blast
qed

lemma WriteStateToDB_loop_rows:
  "WriteStateToDB_loop E calls k xs t = (None, t1) \<Longrightarrow> list_all (has_row t1) xs"
proof (induction xs arbitrary: k t)
  case Nil
  then show ?case by simp
next
  case (Cons x xs)
  obtain err t' where a: "addPkg E (calls k) x t = (err, t')" by (cases "addPkg E (calls k) x t")
  with Cons.prems have e: "err = None"
    and l: "WriteStateToDB_loop E calls (Suc k) xs t' = (None, t1)"
    by (auto split: option.splits)
  from a e have "has_row t' x" by (auto dest: addPkg_ok_row)
  with l have "has_row t1 x" by (rule WriteStateToDB_loop_keeps_row)
  with Cons.IH l show ?case by simp
qed

lemma WriteStateToDB_loop_stops:
  "WriteStateToDB_loop E calls k xs t = (None, t1) \<Longrightarrow>
   fst (addPkg E (calls (k + length xs)) y t1) = Some e \<Longrightarrow>
   WriteStateToDB_loop E calls k (xs @ y # ys) t = (Some e, t1)"
proof (induction xs arbitrary: k t)
  case Nil
  obtain err t' where a: "addPkg E (calls k) y t = (err, t')" by (cases "addPkg E (calls k) y t")
  with Nil have "err = Some e" by simp
  with a have "addPkg E (calls k) y t = (Some e, t)" by (auto dest: addPkg_error_unchanged)
  with Nil show ?case by simp
next
  case (Cons x xs)
  obtain err t' where a: "addPkg E (calls k) x t = (err, t')" by (cases "addPkg E (calls k) x t")
  with Cons.prems(1) have e: "err = None"
    and l: "WriteStateToDB_loop E calls (Suc k) xs t' = (None, t1)"
    by (auto split: option.splits)
  from Cons.prems(2) have "fst (addPkg E (calls (Suc k + length xs)) y t1) = Some e" by simp
  from Cons.IH [OF l this] a e show ?case by simp
qed

text \<open>
  C2 (as amended). \<open>WriteStateToDB\<close> upserts each entry in a transaction of its own,
  begun and committed inside \<open>addPkg\<close>. When the entries \<open>xs\<close> before some entry
  \<open>y\<close> are written without error, leaving the table \<open>t1\<close>, and writing \<open>y\<close> fails,
  the call returns that error at once and the table is \<open>t1\<close>: the failing entry leaves
  no trace and the entries after it are not attempted, but the entries before it stay
  committed, each with a row of its name and arch.
\<close>

theorem WriteStateToDB_keeps_prefix:
  assumes "WriteStateToDB E calls xs t = (None, t1)"
    and "fst (addPkg E (calls (length xs)) y t1) = Some e"
  shows "WriteStateToDB E calls (xs @ y # ys) t = (Some e, t1) \<and> list_all (has_row t1) xs"
  using assms WriteStateToDB_loop_stops [of E calls 0 xs t t1 y e ys]
    WriteStateToDB_loop_rows [of E calls 0 xs t t1]
  by (simp add: WriteStateToDB_def)

theorem WriteStateToDB_keeps_prefix_witness:
  "WriteStateToDB plainEnv secondExecFails [mk_state ''foo'' ''noarch'' ''1''] []
     = (None, [mk_row ''foo'' ''noarch'' ''1''])
   \<and> fst (addPkg plainEnv (secondExecFails 1) (mk_state ''bar'' ''noarch'' ''2'')
            [mk_row ''foo'' ''noarch'' ''1'']) = Some DBError
   \<and> WriteStateToDB plainEnv secondExecFails
       [mk_state ''foo'' ''noarch'' ''1'', mk_state ''bar'' ''noarch'' ''2'', mk_state ''baz'' ''noarch'' ''3''] []
     = (Some DBError, [mk_row ''foo'' ''noarch'' ''1''])
   \<and> has_row [mk_row ''foo'' ''noarch'' ''1''] (mk_state ''foo'' ''noarch'' ''1'')"
proof -
  have 1: "WriteStateToDB plainEnv secondExecFails [mk_state ''foo'' ''noarch'' ''1''] []
     = (None, [mk_row ''foo'' ''noarch'' ''1''])"
    by code_simp
  have 2: "fst (addPkg plainEnv (secondExecFails (length [mk_state ''foo'' ''noarch'' ''1'']))
            (mk_state ''bar'' ''noarch'' ''2'') [mk_row ''foo'' ''noarch'' ''1'']) = Some DBError"
    by code_simp
  from WriteStateToDB_keeps_prefix [OF 1 2, of "[mk_state ''baz'' ''noarch'' ''3'']"] 1 2
  show ?thesis by simp
qed

text \<open>
  The claim C2 as stated fails: when the statement of the second entry fails, the call
  returns the error and the table, empty before the call, holds the row of the first
  entry.
\<close>

theorem WriteStateToDB_not_atomic_counterexample:
  "WriteStateToDB plainEnv secondExecFails
     [mk_state ''foo'' ''noarch'' ''1'', mk_state ''bar'' ''noarch'' ''2''] []
     = (Some DBError, [mk_row ''foo'' ''noarch'' ''1''])
   \<and> [mk_row ''foo'' ''noarch'' ''1''] \<noteq> []"
  by code_simp

lemma fetch_rows_last:
  assumes "\<And>js cur. obs (unmarshal E js cur) = dec js"
  shows "rows \<noteq> [] \<Longrightarrow> obs (fetch_rows E pkgState rows) = dec (PkgJson (last rows))"
proof (induction rows arbitrary: pkgState)
  case Nil
  then show ?case by simp
next
  case (Cons row rows)
  then show ?case by (cases rows) (simp_all add: assms)
qed

text \<open>
  C3 (as amended). When the query runs, \<open>FetchPkg\<close> returns one PackageState and a nil
  error. It decodes every row of the given name into the same value, in the order in
  which the query yields them, so whatever part of the value each decoding overwrites
  is that of the last row yielded: no version is compared and no arch preferred. When no
  row has the name, it returns the empty PackageState.
\<close>

theorem FetchPkg_last_row:
  assumes "\<And>rows. set (queryOrder E rows) = set rows"
    and "\<And>js cur. obs (unmarshal E js cur) = dec js"
  shows "snd (FetchPkg E None t pkgName) = None
         \<and> (if list_ex (\<lambda>row. PkgName row = pkgName) t
            then obs (fst (FetchPkg E None t pkgName)) = dec (PkgJson (last (selected E t pkgName)))
            else fst (FetchPkg E None t pkgName) = emptyPackageState)"
proof (cases "list_ex (\<lambda>row. PkgName row = pkgName) t")
  case True
  then have "filter (\<lambda>row. PkgName row = pkgName) t \<noteq> []"
    unfolding list_ex_iff filter_empty_conv by blast
  moreover have "set (selected E t pkgName) = set (filter (\<lambda>row. PkgName row = pkgName) t)"
    by (simp add: selected_def assms(1))
  ultimately have "selected E t pkgName \<noteq> []" by (metis set_empty)
  from fetch_rows_last [of obs E dec, OF assms(2) this] True
  show ?thesis by (simp add: FetchPkg_def)
next
  case False
  then have "filter (\<lambda>row. PkgName row = pkgName) t = []"
    unfolding list_ex_iff filter_empty_conv by blast
  moreover have "set (selected E t pkgName) = set (filter (\<lambda>row. PkgName row = pkgName) t)"
    by (simp add: selected_def assms(1))
  ultimately have "selected E t pkgName = []" by (metis set_empty)
  with False show ?thesis by (simp add: FetchPkg_def)
qed

theorem FetchPkg_last_row_witness:
  "FetchPkg plainEnv None
     [mk_row ''foo'' ''arm64'' ''2.0'', mk_row ''bar'' ''noarch'' ''7'', mk_row ''foo'' ''x86_64'' ''1.0''] ''foo''
     = (PkgJson (mk_row ''foo'' ''x86_64'' ''1.0''), None)
   \<and> FetchPkg plainEnv None
     [mk_row ''foo'' ''arm64'' ''2.0'', mk_row ''bar'' ''noarch'' ''7'', mk_row ''foo'' ''x86_64'' ''1.0''] ''baz''
     = (emptyPackageState, None)"
proof -
  let ?t = "[mk_row ''foo'' ''arm64'' ''2.0'', mk_row ''bar'' ''noarch'' ''7'', mk_row ''foo'' ''x86_64'' ''1.0'']"
  have q: "\<And>rows. set (queryOrder plainEnv rows) = set rows" by (simp add: plainEnv_def)
  have u: "\<And>js cur. id (unmarshal plainEnv js cur) = id js" by (simp add: plainEnv_def)
  have sel: "last (selected plainEnv ?t ''foo'') = mk_row ''foo'' ''x86_64'' ''1.0''"
    by code_simp
  have ex: "list_ex (\<lambda>row. PkgName row = ''foo'') ?t" "\<not> list_ex (\<lambda>row. PkgName row = ''baz'') ?t"
    by code_simp+
  from FetchPkg_last_row [of plainEnv id id ?t "''foo''", OF q u]
    FetchPkg_last_row [of plainEnv id id ?t "''baz''", OF q u] sel ex
  show ?thesis by (simp add: prod_eq_iff)
qed

text \<open>
  The claim C3 as stated fails: with a row of version 2.0 for arch \<open>arm64\<close> and a row
  of version 1.0 for arch \<open>x86_64\<close>, yielded in this order (which is both the rowid
  order and the order by arch), \<open>FetchPkg\<close> returns the state of the second row: not
  that of the greatest version, and not the first by arch either.
\<close>

theorem FetchPkg_counterexample:
  "FetchPkg plainEnv None [mk_row ''foo'' ''arm64'' ''2.0'', mk_row ''foo'' ''x86_64'' ''1.0''] ''foo''
     = (PkgJson (mk_row ''foo'' ''x86_64'' ''1.0''), None)
   \<and> PackageSpec (PkgJson (mk_row ''foo'' ''x86_64'' ''1.0'')) = Some (mk_spec ''foo'' ''x86_64'' ''1.0'')
   \<and> CompareResult ''2.0'' ''1.0'' = 1"
  by code_simp

text \<open>
  C4 (as amended). For a name and arch without a quote character, and when the statement
  runs, \<open>RemovePkg\<close> deletes exactly the rows whose \<open>PkgName\<close> equals the name and
  whose \<open>PkgArch\<close> equals the arch, whatever the arch is: an empty arch selects the
  rows whose arch is the empty string. A second identical call succeeds and leaves the
  table unchanged.
\<close>

theorem RemovePkg_exact:
  assumes "CHR 0x27 \<notin> set packageName" and "CHR 0x27 \<notin> set arch"
  shows "RemovePkg E None t packageName arch
           = (None, filter (\<lambda>row. \<not> (PkgName row = packageName \<and> PkgArch row = arch)) t)
         \<and> RemovePkg E None (snd (RemovePkg E None t packageName arch)) packageName arch
           = (None, snd (RemovePkg E None t packageName arch))"
  using assms by (simp add: RemovePkg_def)

theorem RemovePkg_exact_witness:
  "RemovePkg plainEnv None
     [mk_row ''foo'' ''x86_64'' ''1.0'', mk_row ''foo'' ''noarch'' ''1.0'', mk_row ''bar'' ''x86_64'' ''2''] ''foo'' ''x86_64''
     = (None, [mk_row ''foo'' ''noarch'' ''1.0'', mk_row ''bar'' ''x86_64'' ''2''])
   \<and> RemovePkg plainEnv None
     [mk_row ''foo'' ''noarch'' ''1.0'', mk_row ''bar'' ''x86_64'' ''2''] ''foo'' ''x86_64''
     = (None, [mk_row ''foo'' ''noarch'' ''1.0'', mk_row ''bar'' ''x86_64'' ''2''])"
proof -
  let ?t = "[mk_row ''foo'' ''x86_64'' ''1.0'', mk_row ''foo'' ''noarch'' ''1.0'', mk_row ''bar'' ''x86_64'' ''2'']"
  have 1: "CHR 0x27 \<notin> set ''foo''" "CHR 0x27 \<notin> set ''x86_64''" by simp_all
  have f: "filter (\<lambda>row. \<not> (PkgName row = ''foo'' \<and> PkgArch row = ''x86_64'')) ?t
            = [mk_row ''foo'' ''noarch'' ''1.0'', mk_row ''bar'' ''x86_64'' ''2'']"
    by code_simp
  have a: "RemovePkg plainEnv None ?t ''foo'' ''x86_64''
             = (None, [mk_row ''foo'' ''noarch'' ''1.0'', mk_row ''bar'' ''x86_64'' ''2''])"
    using RemovePkg_exact [OF 1, of plainEnv ?t, THEN conjunct1] unfolding f .
  have b: "RemovePkg plainEnv None [mk_row ''foo'' ''noarch'' ''1.0'', mk_row ''bar'' ''x86_64'' ''2''] ''foo'' ''x86_64''
             = (None, [mk_row ''foo'' ''noarch'' ''1.0'', mk_row ''bar'' ''x86_64'' ''2''])"
    using RemovePkg_exact [OF 1, of plainEnv ?t, THEN conjunct2] unfolding a snd_conv .
  from a b show ?thesis by (rule conjI)
qed

text \<open>
  The claim C4 as stated fails: called with an empty arch, \<open>RemovePkg\<close> succeeds and
  leaves both rows of the name in the table, since neither has an empty arch.
\<close>

theorem RemovePkg_empty_arch_counterexample:
  "RemovePkg plainEnv None [mk_row ''foo'' ''x86_64'' ''1.0'', mk_row ''foo'' ''noarch'' ''1.0''] ''foo'' []
     = (None, [mk_row ''foo'' ''x86_64'' ''1.0'', mk_row ''foo'' ''noarch'' ''1.0''])"
  by code_simp

subsection \<open>Fetching and decoding a repo index\<close>





text \<open>
  C6. For a repo URL \<open>p\<close> that is not a storage URL, with the cache file stale or
  absent, and a proxy server that is empty or parses, \<open>unmarshalRepoPackages\<close> first
  requests \<open>p/index.gz\<close>; it requests \<open>p/index\<close> next exactly when the first
  request completes with a status other than 200, and requests nothing else; and when
  the second request also completes with a status other than 200, it returns an error
  and no RepoSpec.
\<close>

theorem unmarshalRepoPackages_gz_then_plain:
  assumes "stale_or_absent N cacheLife" and "\<not> fst (SplitGCSUrl N p)"
    and "proxyServer = [] \<or> parseURL N proxyServer = None"
  shows "snd (unmarshalRepoPackages N p cacheLife proxyServer)
           = (if non200 (httpGet N (p @ ''/index.gz'')) then [p @ ''/index.gz'', p @ ''/index'']
              else [p @ ''/index.gz''])
         \<and> (non200 (httpGet N (p @ ''/index.gz'')) \<and> non200 (httpGet N (p @ ''/index''))
              \<longrightarrow> fst (unmarshalRepoPackages N p cacheLife proxyServer) = ([], Some BadStatus))"
proof -
  from assms(1) have "unmarshalRepoPackages N p cacheLife proxyServer = fetchRepoPackages N p proxyServer"
    by (auto simp: unmarshalRepoPackages_def stale_or_absent_def split: StatResult.splits)
  also from assms(2) have "\<dots> = unmarshalRepoPackagesHTTP N p proxyServer"
    by (auto simp: fetchRepoPackages_def split: prod.splits)
  finally show ?thesis
    using assms(3)
    by (auto simp: unmarshalRepoPackagesHTTP_def non200_def Let_def split: sum.splits)
qed

theorem unmarshalRepoPackages_gz_then_plain_witness:
  "unmarshalRepoPackages exampleNet ''https://a.example/repo'' 180 []
     = (([mk_entry ''bar'' ''noarch'' ''2.0'', mk_entry ''baz'' ''noarch'' ''3.0''], None),
        [''https://a.example/repo/index.gz'', ''https://a.example/repo/index''])
   \<and> unmarshalRepoPackages exampleNet ''https://b.example/repo'' 180 []
     = (([], Some BadStatus), [''https://b.example/repo/index.gz'', ''https://b.example/repo/index''])"
proof -
  have s: "stale_or_absent exampleNet 180" by code_simp
  have g: "\<not> fst (SplitGCSUrl exampleNet ''https://a.example/repo'')"
    "\<not> fst (SplitGCSUrl exampleNet ''https://b.example/repo'')" by code_simp+
  have n: "non200 (httpGet exampleNet (''https://a.example/repo'' @ ''/index.gz''))"
    "\<not> non200 (httpGet exampleNet (''https://a.example/repo'' @ ''/index''))"
    "non200 (httpGet exampleNet (''https://b.example/repo'' @ ''/index.gz''))"
    "non200 (httpGet exampleNet (''https://b.example/repo'' @ ''/index''))" by code_simp+
  have a: "fst (unmarshalRepoPackages exampleNet ''https://a.example/repo'' 180 [])
     = ([mk_entry ''bar'' ''noarch'' ''2.0'', mk_entry ''baz'' ''noarch'' ''3.0''], None)"
    by code_simp
  from unmarshalRepoPackages_gz_then_plain [OF s g(1), of "[]"]
    unmarshalRepoPackages_gz_then_plain [OF s g(2), of "[]"] n a
  show ?thesis by (simp add: prod_eq_iff)
qed

text \<open>
  C10. With a proxy server configured, a storage URL, and the cache file stale or absent,
  \<open>unmarshalRepoPackages\<close> returns an empty RepoSpec list and a nil error, and
  requests nothing.
\<close>

theorem unmarshalRepoPackages_gcs_proxy_skipped:
  assumes "stale_or_absent N cacheLife" and "fst (SplitGCSUrl N p)" and "proxyServer \<noteq> []"
  shows "unmarshalRepoPackages N p cacheLife proxyServer = (([], None), [])"
proof -
  from assms(1) have "unmarshalRepoPackages N p cacheLife proxyServer = fetchRepoPackages N p proxyServer"
    by (auto simp: unmarshalRepoPackages_def stale_or_absent_def split: StatResult.splits)
  also from assms(2,3) have "\<dots> = (([], None), [])"
    by (auto simp: fetchRepoPackages_def unmarshalRepoPackagesGCS_def split: prod.splits)
  finally show ?thesis .
qed

theorem unmarshalRepoPackages_gcs_proxy_skipped_witness:
  "unmarshalRepoPackages exampleNet ''gs://bucket/repo'' 180 ''http://proxy.example:3128''
     = (([], None), [])"
proof -
  have s: "stale_or_absent exampleNet 180" by code_simp
  have g: "fst (SplitGCSUrl exampleNet ''gs://bucket/repo'')" by code_simp
  have p: "''http://proxy.example:3128'' \<noteq> []" by simp
  from unmarshalRepoPackages_gcs_proxy_skipped [OF s g p] show ?thesis .
qed

subsection \<open>Running a verify command\<close>

lemma reverify_failure:
  "EvExtractPkg None \<in> set (pre @ snd (reverify V rd)) \<Longrightarrow>
   last (pre @ snd (reverify V rd)) = EvVerify (Some e) \<Longrightarrow>
   EvExtractPkg None \<notin> set pre \<Longrightarrow>
   fst (reverify V rd) = (False, None)"
  by (auto simp: reverify_def Let_def split: option.splits if_splits)

text \<open>
  C9. Whenever \<open>RunVerifyCommand\<close> has extracted the package again with
  \<open>download.ExtractPkg\<close> and the verify command, run after that as its last step,
  fails, it returns \<open>ok = false\<close> together with a nil error: the failure of the
  script is the answer, not an error of the call.
\<close>

theorem RunVerifyCommand_failure_not_fatal:
  assumes "EvExtractPkg None \<in> set (snd (RunVerifyCommand V ps proxyServer))"
    and "last (snd (RunVerifyCommand V ps proxyServer)) = EvVerify (Some e)"
  shows "fst (RunVerifyCommand V ps proxyServer) = (False, None)"
proof -
  let ?rd = "openResult V = NotExist \<or> (Checksum ps \<noteq> [] \<and> localChecksum V \<noteq> Checksum ps)"
  from assms(1) obtain e1 where
    run: "RunVerifyCommand V ps proxyServer
            = (fst (reverify V ?rd), [EvExtractVerify None, EvVerify (Some e1)] @ snd (reverify V ?rd))"
    by (auto simp: RunVerifyCommand_def Let_def
             split: option.splits if_splits OpenResult.splits prod.splits)
  from assms run have "fst (reverify V ?rd) = (False, None)"
    using reverify_failure [of "[EvExtractVerify None, EvVerify (Some e1)]" V ?rd e]
    by simp
  with run show ?thesis by simp
qed

theorem RunVerifyCommand_failure_not_fatal_witness:
  "RunVerifyCommand failingVerify verifiedState []
     = ((False, None),
        [EvExtractVerify None, EvVerify (Some ScriptFailed), EvExtractPkg None,
         EvVerify (Some ScriptFailed)])"
proof -
  have s: "snd (RunVerifyCommand failingVerify verifiedState [])
     = [EvExtractVerify None, EvVerify (Some ScriptFailed), EvExtractPkg None,
         EvVerify (Some ScriptFailed)]"
    by code_simp
  have 1: "EvExtractPkg None \<in> set (snd (RunVerifyCommand failingVerify verifiedState []))"
    unfolding s by simp
  have 2: "last (snd (RunVerifyCommand failingVerify verifiedState [])) = EvVerify (Some ScriptFailed)"
    unfolding s by simp
  from RunVerifyCommand_failure_not_fatal [OF 1 2] s show ?thesis
    by (simp add: prod_eq_iff)
qed

subsection \<open>Matching a package state\<close>

text \<open>
  C8. For a PackageState that carries a package spec, \<open>Match\<close> returns a boolean, and it
  is true exactly when the spec's name equals the requested name, the spec's arch equals
  the requested arch unless the requested arch is empty, and the spec's version equals the
  requested version unless the requested version is empty: an empty arch or version in
  the request matches anything.
\<close>

theorem Match_wildcards:
  "PackageSpec ps = Some spec \<Longrightarrow>
   Match ps pi =
     Inr (Name spec = piName pi
          \<and> (if piArch pi = [] then True else Arch spec = piArch pi)
          \<and> (if piVer pi = [] then True else Version spec = piVer pi))"
  by (auto simp: Match_def)

theorem Match_wildcards_witness:
  "Match (emptyPackageState\<lparr>PackageSpec :=
            Some \<lparr>Name = ''foo'', Version = ''1.2.3@4'', Arch = ''noarch'', VerifyPath = []\<rparr>\<rparr>)
         \<lparr>piName = ''foo'', piArch = [], piVer = []\<rparr> = Inr True"
  using Match_wildcards [of "emptyPackageState\<lparr>PackageSpec :=
            Some \<lparr>Name = ''foo'', Version = ''1.2.3@4'', Arch = ''noarch'', VerifyPath = []\<rparr>\<rparr>"
         "\<lparr>Name = ''foo'', Version = ''1.2.3@4'', Arch = ''noarch'', VerifyPath = []\<rparr>"
         "\<lparr>piName = ''foo'', piArch = [], piVer = []\<rparr>"]
  by (simp add: emptyPackageState_def)

end
